theory Spec2Isabelle
  imports Main
begin

section \<open>Package twicli: prefix matchers and commands\<close>

subsection \<open>Strings\<close>

text \<open>
  A Go string is a sequence of bytes, here a \<open>string\<close> (a list of 8-bit characters).
  \<open>strings.ToLower\<close> and \<open>strings.EqualFold\<close> belong to the Go standard library
  and work on the Unicode letters of a string. They are not defined here: the matchers
  that call them take them as the parameters \<open>toLower\<close> and \<open>equalFold\<close>.
  What the library does on a string of ASCII bytes is simple enough to write down:
  \<open>strings.ToLower\<close> turns each of the bytes \<open>A\<close> to \<open>Z\<close> into its lower-case
  byte and leaves the others (\<open>asciiToLower\<close>), and \<open>strings.EqualFold\<close> compares
  two such strings without regard to the case of these letters (\<open>asciiEqualFold\<close>).
\<close>

definition isUpper :: "char \<Rightarrow> bool" where
  "isUpper c = (65 \<le> (of_char c :: nat) \<and> (of_char c :: nat) \<le> 90)"

definition toLowerByte :: "char \<Rightarrow> char" where
  "toLowerByte c = (if isUpper c then char_of ((of_char c :: nat) + 32) else c)"

definition isASCII :: "string \<Rightarrow> bool" where
  "isASCII s = list_all (\<lambda>c. (of_char c :: nat) < 128) s"

definition asciiToLower :: "string \<Rightarrow> string" where
  "asciiToLower s = map toLowerByte s"

definition asciiEqualFold :: "string \<Rightarrow> string \<Rightarrow> bool" where
  "asciiEqualFold s t = (asciiToLower s = asciiToLower t)"

definition isSpace :: "char \<Rightarrow> bool" where
  "isSpace c = ((of_char c :: nat) \<in> {9, 10, 11, 12, 13, 32})"

subsection \<open>Errors\<close>

text \<open>
  A Go \<open>error\<close> value is an \<open>error option\<close>, \<open>None\<close> being \<open>nil\<close>.
  \<open>ErrNotMatched\<close> is the sentinel of the package; \<open>Failure\<close> is any other error
  made with \<open>errors.New\<close>, and \<open>Wrapped\<close> an error that wraps another one
  (\<open>errors.Wrap\<close>).
\<close>

datatype error = ErrNotMatched | Failure string | Wrapped string error

fun Error :: "error \<Rightarrow> string" where
  "Error ErrNotMatched = ''message did not match command''"
| "Error (Failure s) = s"
| "Error (Wrapped m e) = m @ '': '' @ Error e"

text \<open>\<open>errors.Is\<close> walks the chain of wrapped errors and compares each link.\<close>

fun chainIs :: "error \<Rightarrow> error \<Rightarrow> bool" where
  "chainIs (Wrapped m e) target = (Wrapped m e = target \<or> chainIs e target)"
| "chainIs e target = (e = target)"

definition errors_Is :: "error option \<Rightarrow> error \<Rightarrow> bool" where
  "errors_Is err target = (case err of None \<Rightarrow> False | Some e \<Rightarrow> chainIs e target)"

subsection \<open>Prefix functions\<close>

type_synonym PrefixFunc = "string \<Rightarrow> string \<times> bool"

text \<open>
  Modelled from the spec: \<open>PopFirstWord\<close> is called by every built-in matcher and is
  not among the files verified here. The spec speaks of "the first whitespace-delimited
  token" of the body and of "the rest": the first word is the first maximal run of
  characters that are not white space, the tail is what follows it without the white
  space in between, and a body with no word at all is an error.
\<close>

definition PopFirstWord :: "string \<Rightarrow> error + (string \<times> string)" where
  "PopFirstWord msg =
     (let body = dropWhile isSpace msg;
          first = takeWhile (\<lambda>c. \<not> isSpace c) body;
          tail = dropWhile isSpace (dropWhile (\<lambda>c. \<not> isSpace c) body)
      in if first = [] then Inl (Failure ''no word'') else Inr (first, tail))"

definition NewNaturalPrefix :: "(string \<Rightarrow> string) \<Rightarrow> string \<Rightarrow> PrefixFunc" where
  "NewNaturalPrefix toLower name =
     (let prefix = toLower name @ '',''
      in (\<lambda>msg.
        case PopFirstWord msg of
          Inl err \<Rightarrow> ('''', False)
        | Inr (first, tail) \<Rightarrow>
            if toLower first \<noteq> prefix then ('''', False) else (tail, True)))"

definition NewSlashPrefix :: "string \<Rightarrow> PrefixFunc" where
  "NewSlashPrefix name =
     (let prefix = ''/'' @ name
      in (\<lambda>msg.
        case PopFirstWord msg of
          Inl err \<Rightarrow> ('''', False)
        | Inr (first, tail) \<Rightarrow>
            if first \<noteq> prefix then ('''', False) else (tail, True)))"

definition NewWordPrefix :: "(string \<Rightarrow> string \<Rightarrow> bool) \<Rightarrow> string \<Rightarrow> bool \<Rightarrow> PrefixFunc" where
  "NewWordPrefix equalFold word cased =
     (\<lambda>msg.
        case PopFirstWord msg of
          Inl err \<Rightarrow> ('''', False)
        | Inr (first, tail) \<Rightarrow>
            (let ok = (if cased then first = word else equalFold first word)
             in (tail, ok)))"

fun CombinePrefixes :: "PrefixFunc list \<Rightarrow> PrefixFunc" where
  "CombinePrefixes [] msg = ('''', False)"
| "CombinePrefixes (prefix # prefixes) msg =
     (case prefix msg of
        (body, ok) \<Rightarrow> if ok then (body, True) else CombinePrefixes prefixes msg)"

subsection \<open>Messages and commands\<close>

text \<open>
  \<open>twipi.Message\<close> is the transport's message; the source reads its fields
  \<open>From\<close>, \<open>To\<close> and \<open>Body\<close>. The \<open>Message\<close> of this package embeds it and
  adds a body of its own, which is the one the commands strip.
\<close>

record twipi_Message =
  msg_From :: string
  msg_To :: string
  msg_Body :: string

record Message =
  Embedded :: twipi_Message
  Body :: string

text \<open>
  An action may do anything besides returning its error: it is a function of the
  message and of a state \<open>'s\<close> of the world, which it returns changed.
\<close>

type_synonym 's ActionFunc = "Message \<Rightarrow> 's \<Rightarrow> error option \<times> 's"

record 's Command =
  Prefix :: PrefixFunc
  Action :: "'s ActionFunc"

definition Do :: "'s Command \<Rightarrow> 's ActionFunc" where
  "Do c msg s =
     (case Prefix c (Body msg) of
        (body, ok) \<Rightarrow>
          if ok then Action c (msg\<lparr>Body := body\<rparr>) s
          else (Some ErrNotMatched, s))"

fun Subcommands :: "'s Command list \<Rightarrow> 's ActionFunc" where
  "Subcommands [] msg s = (Some ErrNotMatched, s)"
| "Subcommands (cmd # cmds) msg s =
     (case Do cmd msg s of
        (err, s') \<Rightarrow>
          if errors_Is err ErrNotMatched then Subcommands cmds msg s'
          else if err \<noteq> None then (err, s')
          else (None, s'))"

text \<open>
  \<open>DoAndReply\<close> talks to two collaborators that are not part of this package: the
  client, whose \<open>ReplySMS\<close> is a parameter here (it may fail and may change the
  world), and the logger. What \<open>DoAndReply\<close> asks of them is returned as a list of
  events, in the order of the calls. The Go function returns nothing, so the model has
  no error among its results.
\<close>

datatype event =
  ReplySMS twipi_Message string
| LogError string error error string string

type_synonym 's ReplyFunc = "twipi_Message \<Rightarrow> string \<Rightarrow> 's \<Rightarrow> error option \<times> 's"

definition ErrorMessage :: "error option \<Rightarrow> string" where
  "ErrorMessage err =
     (case err of
        None \<Rightarrow> ''''
      | Some e \<Rightarrow>
          if errors_Is err ErrNotMatched then ''Sorry! I'm not sure what you mean.''
          else ''Sorry, an error occured: '' @ Error e)"

definition DoAndReply :: "'s Command \<Rightarrow> 's ReplyFunc \<Rightarrow> twipi_Message \<Rightarrow> 's \<Rightarrow> event list \<times> 's" where
  "DoAndReply c cli msg s =
     (case Do c \<lparr>Embedded = msg, Body = msg_Body msg\<rparr> s of
        (None, s1) \<Rightarrow> ([], s1)
      | (Some err, s1) \<Rightarrow>
          (let errBody = ErrorMessage (Some err)
           in case cli msg errBody s1 of
                (None, s2) \<Rightarrow> ([ReplySMS msg errBody], s2)
              | (Some rerr, s2) \<Rightarrow>
                  ([ReplySMS msg errBody,
                    LogError ''cannot reply with error message'' rerr rerr
                      (msg_From msg) (msg_To msg)], s2)))"

section \<open>Package twisms: message filters\<close>

text \<open>
  The generated protobuf types are not among the files verified here. The source reads a
  message through \<open>GetFrom\<close> and \<open>GetTo\<close>, a filter list through \<open>GetFilters\<close>
  and a filter through its one-of field, whose cases are \<open>MatchFrom\<close> and
  \<open>MatchTo\<close>. Every getter accepts a nil receiver and returns the zero value
  then; a filter whose one-of field is not set (or that is nil itself) is \<open>None\<close>.
\<close>

record proto_Message =
  pb_From :: string
  pb_To :: string
  pb_Body :: string

datatype isMessageFilter_Filter =
  MessageFilter_MatchFrom string
| MessageFilter_MatchTo string

type_synonym MessageFilter = "isMessageFilter_Filter option"

record MessageFilters =
  Filters :: "MessageFilter list"

definition GetFrom :: "proto_Message option \<Rightarrow> string" where
  "GetFrom msg = (case msg of None \<Rightarrow> '''' | Some m \<Rightarrow> pb_From m)"

definition GetTo :: "proto_Message option \<Rightarrow> string" where
  "GetTo msg = (case msg of None \<Rightarrow> '''' | Some m \<Rightarrow> pb_To m)"

definition GetFilters :: "MessageFilters option \<Rightarrow> MessageFilter list" where
  "GetFilters filters = (case filters of None \<Rightarrow> [] | Some fs \<Rightarrow> Filters fs)"

fun filterLoop :: "MessageFilter list \<Rightarrow> proto_Message option \<Rightarrow> bool" where
  "filterLoop [] msg = True"
| "filterLoop (filter' # rest) msg =
     (case filter' of
        Some (MessageFilter_MatchFrom MatchFrom) \<Rightarrow>
          if GetFrom msg \<noteq> MatchFrom then False else filterLoop rest msg
      | Some (MessageFilter_MatchTo MatchTo) \<Rightarrow>
          if GetTo msg \<noteq> MatchTo then False else filterLoop rest msg
      | None \<Rightarrow> filterLoop rest msg)"

definition FilterMessage :: "MessageFilters option \<Rightarrow> proto_Message option \<Rightarrow> bool" where
  "FilterMessage filters msg = filterLoop (GetFilters filters) msg"

text \<open>What one filter asks of a message, in the words of the specification.\<close>

fun satisfies :: "proto_Message option \<Rightarrow> MessageFilter \<Rightarrow> bool" where
  "satisfies msg (Some (MessageFilter_MatchFrom a)) = (GetFrom msg = a)"
| "satisfies msg (Some (MessageFilter_MatchTo a)) = (GetTo msg = a)"
| "satisfies msg None = True"

section \<open>Package twid: the module loader\<close>

text \<open>
  A fault of the Go run time (a \<open>panic\<close>) is the outcome \<open>Panic\<close>; a call that
  comes back is \<open>Return\<close> with what it returns.
\<close>

datatype 'a outcome = Panic string | Return 'a

text \<open>
  A \<open>Handler\<close> is an interface value. The loader probes it for the
  optional interfaces; the record keeps the answers, and
  \<open>boundTwipi\<close> is what \<open>BindTwipi\<close> has stored in it.
\<close>

record ConfiguredServer =
  hasMessage :: bool

record Handler =
  isTwipiHandler :: bool
  isCommandHandler :: bool
  isMessageHandler :: bool
  isHTTPCommander :: bool
  HTTPPrefix :: string
  boundTwipi :: "ConfiguredServer option"

record Module =
  Name :: string
  New :: "unit \<Rightarrow> Handler"

definition illegalNames :: "string list" where
  "illegalNames = [''twid'', ''twipi'']"

text \<open>
  The registry \<open>modules\<close> is a package variable: \<open>Register\<close> takes it and returns it
  with the module appended, or panics.
\<close>

fun checkIllegal :: "string list \<Rightarrow> Module \<Rightarrow> string option" where
  "checkIllegal [] m = None"
| "checkIllegal (illegalName # rest) m =
     (if Name m = illegalName then Some (''illegal module name: '' @ illegalName)
      else checkIllegal rest m)"

definition Register :: "Module \<Rightarrow> Module list \<Rightarrow> Module list outcome" where
  "Register m modules =
     (case checkIllegal illegalNames m of
        Some p \<Rightarrow> Panic p
      | None \<Rightarrow> Return (modules @ [m]))"

text \<open>A sequence of registrations, one after the other; the first panic ends it.\<close>

fun RegisterAll :: "Module list \<Rightarrow> Module list \<Rightarrow> Module list outcome" where
  "RegisterAll [] modules = Return modules"
| "RegisterAll (m # rest) modules =
     (case Register m modules of
        Panic p \<Rightarrow> Panic p
      | Return modules' \<Rightarrow> RegisterAll rest modules')"

text \<open>
  A route of the multiplexer: \<open>Handle\<close> of a module's handler under the pattern
  \<open>path.Join(prefix, "*")\<close>, kept by its prefix and the module's name, or \<open>Mount\<close>
  of the transport under a pattern. A nil \<open>*chi.Mux\<close> is \<open>None\<close>. The checks the
  router makes on a pattern are its own and are not modelled.
\<close>

datatype route = Handle string string | Mount string

record HTTPServer =
  Addr :: string

record Loader =
  ListenAddr :: string
  handlers :: "string \<rightharpoonup> Handler"
  enabled :: "string \<rightharpoonup> bool"
  mux :: "route list option"
  http :: "HTTPServer option"
  twipi :: "ConfiguredServer option"

text \<open>Reading a Go map of booleans at a key it does not hold gives \<open>false\<close>.\<close>

definition isEnabled :: "Loader \<Rightarrow> string \<Rightarrow> bool" where
  "isEnabled l name = (case enabled l name of None \<Rightarrow> False | Some b \<Rightarrow> b)"

fun newHandlers :: "Module list \<Rightarrow> (string \<rightharpoonup> Handler) \<Rightarrow> (string \<rightharpoonup> Handler)" where
  "newHandlers [] hs = hs"
| "newHandlers (module # rest) hs = newHandlers rest (hs(Name module \<mapsto> New module ()))"

definition NewLoader :: "Module list \<Rightarrow> Loader" where
  "NewLoader modules =
     \<lparr>ListenAddr = '''', handlers = newHandlers modules Map.empty, enabled = Map.empty,
      mux = None, http = None, twipi = None\<rparr>"

text \<open>
  \<open>LoadConfig\<close> gets the document from \<open>cfgutil.ParseMany\<close> and the transport from
  \<open>twipi.NewConfiguredServer\<close>; both are outside the files verified here, so what they
  return is given: the parsed document (the listen address and the \<open>enable\<close> flag of
  every block) or the parser's error, and the server or the constructor's error. Go
  ranges over a map in an order of its own choosing: \<open>keys\<close> is the order in which the
  handlers come.
\<close>

record Document =
  doc_ListenAddr :: string
  enabledBlocks :: "(string \<times> bool) list"

fun setEnabled :: "(string \<times> bool) list \<Rightarrow> (string \<rightharpoonup> bool) \<Rightarrow> (string \<rightharpoonup> bool)" where
  "setEnabled [] en = en"
| "setEnabled ((name, enable) # rest) en = setEnabled rest (en(name \<mapsto> enable))"

fun bindAll :: "string list \<Rightarrow> ConfiguredServer \<Rightarrow> Loader \<Rightarrow> Loader" where
  "bindAll [] twipisrv l = l"
| "bindAll (name # rest) twipisrv l =
     (case handlers l name of
        None \<Rightarrow> bindAll rest twipisrv l
      | Some handler \<Rightarrow>
          if \<not> isEnabled l name then bindAll rest twipisrv l
          else if isTwipiHandler handler
            then bindAll rest twipisrv
              (l\<lparr>handlers := (handlers l)(name \<mapsto> handler\<lparr>boundTwipi := Some twipisrv\<rparr>)\<rparr>)
          else bindAll rest twipisrv l)"

fun handleAll :: "string list \<Rightarrow> Loader \<Rightarrow> route list \<Rightarrow> route list" where
  "handleAll [] l routes = routes"
| "handleAll (name # rest) l routes =
     (case handlers l name of
        None \<Rightarrow> handleAll rest l routes
      | Some handler \<Rightarrow>
          if \<not> isEnabled l name then handleAll rest l routes
          else if isHTTPCommander handler
            then handleAll rest l (routes @ [Handle (HTTPPrefix handler) name])
          else handleAll rest l routes)"

definition bindTwipiRouter :: "Loader \<Rightarrow> (error option \<times> Loader) outcome" where
  "bindTwipiRouter l =
     (if twipi l \<noteq> None then
        (case mux l of
           None \<Rightarrow> Panic ''invalid memory address or nil pointer dereference''
         | Some routes \<Rightarrow> Return (None, l\<lparr>mux := Some (routes @ [Mount ''/''])\<rparr>))
      else Return (None, l))"

definition bindHTTP :: "string list \<Rightarrow> Loader \<Rightarrow> Loader" where
  "bindHTTP keys l =
     (if ListenAddr l \<noteq> '''' then
        l\<lparr>mux := Some (handleAll keys l []), http := Some \<lparr>Addr = ListenAddr l\<rparr>\<rparr>
      else l)"

definition LoadConfig ::
  "Loader \<Rightarrow> string list \<Rightarrow> error + Document \<Rightarrow> error + ConfiguredServer
     \<Rightarrow> (error option \<times> Loader) outcome" where
  "LoadConfig l keys parsed newServer =
     (case parsed of
        Inl err \<Rightarrow> Return (Some (Wrapped ''failed to parse config'' err), l)
      | Inr doc \<Rightarrow>
          (let l1 = l\<lparr>ListenAddr := doc_ListenAddr doc,
                       enabled := setEnabled (enabledBlocks doc) (enabled l)\<rparr>
           in if isEnabled l1 ''twipi'' then
                (case newServer of
                   Inl err \<Rightarrow> Return (Some (Wrapped ''failed to create twipi server'' err), l1)
                 | Inr twipisrv \<Rightarrow>
                     bindTwipiRouter
                       (bindHTTP keys (bindAll keys twipisrv (l1\<lparr>twipi := Some twipisrv\<rparr>))))
              else bindTwipiRouter (bindHTTP keys l1)))"

text \<open>
  \<open>Start\<close> hands its units to an error group and then waits for them. The model is
  the part before the wait: the goroutines handed over, in order, and either the error
  \<open>Start\<close> returns at once or \<open>None\<close> when it goes on to wait.
\<close>

datatype goroutine =
  UpdateTwilio
| HTTPListenAndServe
| MessageLoop string
| CommandLoop string
| ModuleStart string

definition requireTwipi :: "Loader \<Rightarrow> error option" where
  "requireTwipi l =
     (case twipi l of
        None \<Rightarrow> Some (Failure ''twipi is not configured'')
      | Some srv \<Rightarrow>
          if \<not> hasMessage srv then Some (Failure ''twipi message handler is not configured'')
          else None)"

fun startHandlers :: "Loader \<Rightarrow> string list \<Rightarrow> goroutine list \<Rightarrow> goroutine list \<times> error option" where
  "startHandlers l [] units = (units, None)"
| "startHandlers l (name # rest) units =
     (case handlers l name of
        None \<Rightarrow> startHandlers l rest units
      | Some handler \<Rightarrow>
          if \<not> isEnabled l name then startHandlers l rest units
          else if isMessageHandler handler \<and> requireTwipi l \<noteq> None
            then (units, requireTwipi l)
          else
            (let units1 = (if isMessageHandler handler then units @ [MessageLoop name] else units)
             in if isCommandHandler handler \<and> requireTwipi l \<noteq> None
                  then (units1, requireTwipi l)
                else
                  (let units2 = (if isCommandHandler handler then units1 @ [CommandLoop name]
                                 else units1)
                   in startHandlers l rest (units2 @ [ModuleStart name]))))"

definition Start :: "Loader \<Rightarrow> string list \<Rightarrow> goroutine list \<times> error option" where
  "Start l keys =
     (if \<not> isEnabled l ''twid'' then ([], Some (Failure ''twid is not enabled''))
      else
        (let units1 = (if twipi l \<noteq> None then [UpdateTwilio] else []);
             units2 = (if http l \<noteq> None then units1 @ [HTTPListenAndServe] else units1)
         in startHandlers l keys units2))"








section \<open>Notions the properties are stated with\<close>

text \<open>
  What is asked of \<open>strings.ToLower\<close>, all of it true of the library: on a string
  of ASCII bytes it is \<open>asciiToLower\<close>; a comma at the end of a string stays a
  comma at the end, the rest being lower-cased as it is without the comma; and a string
  that lower-cases to one ending in a comma ends in a comma itself. The comma is one
  byte, is no part of any longer character, and is the lower case of nothing else.
\<close>

definition lowersLikeGo :: "(string \<Rightarrow> string) \<Rightarrow> bool" where
  "lowersLikeGo toLower \<longleftrightarrow>
     (\<forall>s. isASCII s \<longrightarrow> toLower s = asciiToLower s) \<and>
     (\<forall>s. toLower (s @ '','') = toLower s @ '','') \<and>
     (\<forall>s t. toLower s = t @ '','' \<longrightarrow> (\<exists>w. s = w @ '',''))"

text \<open>
  The children of an aggregate run one after the other on the same message, each in
  the state its predecessor left. \<open>stateAfter cmds msg s\<close> is the state after all of
  \<open>cmds\<close> have run from \<open>s\<close>, and \<open>allNotMatched cmds msg s\<close> says that each of
  them, run in its turn, returned an error that is \<open>ErrNotMatched\<close>.
\<close>

fun stateAfter :: "'s Command list \<Rightarrow> Message \<Rightarrow> 's \<Rightarrow> 's" where
  "stateAfter [] msg s = s"
| "stateAfter (cmd # cmds) msg s = stateAfter cmds msg (snd (Do cmd msg s))"

fun allNotMatched :: "'s Command list \<Rightarrow> Message \<Rightarrow> 's \<Rightarrow> bool" where
  "allNotMatched [] msg s = True"
| "allNotMatched (cmd # cmds) msg s =
     (errors_Is (fst (Do cmd msg s)) ErrNotMatched \<and>
      allNotMatched cmds msg (snd (Do cmd msg s)))"

text \<open>
  Commands to try the definitions on: \<open>slashCmd name result\<close> answers to
  \<open>/name\<close>, writes its name and the body it was given to a journal, which is the
  state, and returns \<open>result\<close>. \<open>journalReply\<close> is a client that writes each reply
  to the same journal; \<open>failingReply\<close> is one whose every reply fails.
\<close>

definition slashCmd :: "string \<Rightarrow> error option \<Rightarrow> (string list) Command" where
  "slashCmd name result =
     \<lparr>Prefix = NewSlashPrefix name,
      Action = (\<lambda>msg journal. (result, journal @ [name @ '':'' @ Body msg]))\<rparr>"

definition journalReply :: "(string list) ReplyFunc" where
  "journalReply msg body journal = (None, journal @ [''reply:'' @ body])"

definition failingReply :: "(string list) ReplyFunc" where
  "failingReply msg body journal = (Some (Failure ''no route''), journal)"

definition sms :: "string \<Rightarrow> twipi_Message" where
  "sms body = \<lparr>msg_From = ''+15550001'', msg_To = ''+15550002'', msg_Body = body\<rparr>"

text \<open>
  Modules to try the loader on: a handler with none of the optional interfaces, a
  module "echo" that makes it, and a second module of the same name whose handler is a
  command handler.
\<close>

definition plainHandler :: Handler where
  "plainHandler =
     \<lparr>isTwipiHandler = False, isCommandHandler = False, isMessageHandler = False,
      isHTTPCommander = False, HTTPPrefix = '''', boundTwipi = None\<rparr>"

definition echoModule :: Module where
  "echoModule = \<lparr>Name = ''echo'', New = (\<lambda>u. plainHandler)\<rparr>"

definition echoModule2 :: Module where
  "echoModule2 = \<lparr>Name = ''echo'', New = (\<lambda>u. plainHandler\<lparr>isCommandHandler := True\<rparr>)\<rparr>"

text \<open>
  A document that enables the loader and the transport and gives no listen address.
\<close>

definition noListenDoc :: Document where
  "noListenDoc =
     \<lparr>doc_ListenAddr = '''', enabledBlocks = [(''twid'', True), (''twipi'', True)]\<rparr>"





section \<open>Properties of the prefix matchers\<close>

lemma toLowerByte_comma: "toLowerByte c = CHR '','' \<longleftrightarrow> c = CHR '',''"
proof
  assume h: "toLowerByte c = CHR '',''"
  show "c = CHR '',''"
  proof (cases "isUpper c")
    case False
    with h show ?thesis by (simp add: toLowerByte_def)
  next
    case True
    then have b: "65 \<le> (of_char c :: nat)" "(of_char c :: nat) \<le> 90"
      by (simp_all add: isUpper_def)
    from True h have "char_of ((of_char c :: nat) + 32) = CHR '',''"
      by (simp add: toLowerByte_def)
    then have "(of_char (char_of ((of_char c :: nat) + 32)) :: nat) = of_char (CHR '','')"
      by simp
    then have "((of_char c :: nat) + 32) mod 256 = 44" by (simp only: of_char_of) simp
    with b show ?thesis by simp
  qed
next
  assume "c = CHR '',''"
  then show "toLowerByte c = CHR '',''" by (simp add: toLowerByte_def isUpper_def)
qed

text \<open>
  The byte-wise lowering has the three properties asked of \<open>strings.ToLower\<close>, so
  they can be met.
\<close>

lemma asciiToLower_lowersLikeGo: "lowersLikeGo asciiToLower"
proof -
  have 1: "\<forall>s. isASCII s \<longrightarrow> asciiToLower s = asciiToLower s" by simp
  have 2: "\<forall>s. asciiToLower (s @ '','') = asciiToLower s @ '',''"
    by (simp add: asciiToLower_def toLowerByte_def isUpper_def)
  have 3: "\<forall>s t. asciiToLower s = t @ '','' \<longrightarrow> (\<exists>w. s = w @ '','')"
  proof (intro allI impI)
    fix s t
    assume h: "asciiToLower s = t @ '',''"
    then have "s \<noteq> []" by (auto simp: asciiToLower_def)
    then have sp: "s = butlast s @ [last s]" by simp
    have "asciiToLower s = asciiToLower (butlast s) @ [toLowerByte (last s)]"
      by (subst sp) (simp add: asciiToLower_def)
    with h have "toLowerByte (last s) = CHR '',''" by simp
    then have "last s = CHR '',''" by (simp add: toLowerByte_comma)
    with sp have "s = butlast s @ '',''" by simp
    then show "\<exists>w. s = w @ '',''" by blast
  qed
  from 1 2 3 show ?thesis unfolding lowersLikeGo_def by blast
qed

text \<open>
  Lower-casing the first word gives the lower-cased name followed by a comma exactly
  when the word is some spelling of the name, equal to it once lower-cased, followed
  by a comma itself.
\<close>

lemma toLower_comma_iff:
  assumes "lowersLikeGo toLower"
  shows "toLower first = toLower name @ '','' \<longleftrightarrow>
     (\<exists>w. first = w @ '','' \<and> toLower w = toLower name)"
proof
  from assms have c: "\<And>s. toLower (s @ '','') = toLower s @ '',''"
    and e: "\<And>s t. toLower s = t @ '','' \<Longrightarrow> \<exists>w. s = w @ '',''"
    unfolding lowersLikeGo_def by blast+
  {
    assume h: "toLower first = toLower name @ '',''"
    from e [OF h] obtain w where w: "first = w @ '',''" by blast
    with h c [of w] have "toLower w = toLower name" by simp
    with w show "\<exists>w. first = w @ '','' \<and> toLower w = toLower name" by blast
  }
  {
    assume "\<exists>w. first = w @ '','' \<and> toLower w = toLower name"
    then obtain w where "first = w @ '',''" "toLower w = toLower name" by blast
    with c [of w] show "toLower first = toLower name @ '',''" by simp
  }
qed

lemma toLower_ascii:
  "lowersLikeGo toLower \<Longrightarrow> isASCII s \<Longrightarrow> toLower s = asciiToLower s"
  unfolding lowersLikeGo_def by blast

text \<open>
  The modelled \<open>PopFirstWord\<close> does split a body at its first word: it answers
  \<open>(first, tail)\<close> exactly when the body is some white space, then \<open>first\<close>, which
  is not empty and holds no white space, then either nothing or white space and the
  tail.
\<close>

lemma PopFirstWord_Inr_iff:
  "PopFirstWord msg = Inr (first, tail) \<longleftrightarrow>
     (\<exists>ws rest. msg = ws @ first @ rest \<and> (\<forall>c\<in>set ws. isSpace c) \<and>
        first \<noteq> [] \<and> (\<forall>c\<in>set first. \<not> isSpace c) \<and>
        (rest = [] \<or> isSpace (hd rest)) \<and> tail = dropWhile isSpace rest)"
proof
  assume h: "PopFirstWord msg = Inr (first, tail)"
  define ws where "ws = takeWhile isSpace msg"
  define body where "body = dropWhile isSpace msg"
  define rest where "rest = dropWhile (\<lambda>c. \<not> isSpace c) body"
  from h have f: "first = takeWhile (\<lambda>c. \<not> isSpace c) body" "first \<noteq> []"
    and t: "tail = dropWhile isSpace rest"
    by (auto simp: PopFirstWord_def Let_def body_def rest_def split: if_splits)
  have "msg = ws @ body" by (simp add: ws_def body_def)
  moreover have "body = first @ rest" by (simp add: f rest_def)
  ultimately have 1: "msg = ws @ first @ rest" by simp
  have 2: "\<forall>c\<in>set ws. isSpace c" by (auto simp: ws_def dest: set_takeWhileD)
  have 3: "\<forall>c\<in>set first. \<not> isSpace c" by (auto simp: f dest: set_takeWhileD)
  have 4: "rest = [] \<or> isSpace (hd rest)"
    using hd_dropWhile[of "\<lambda>c. \<not> isSpace c" body] by (auto simp: rest_def)
  from 1 2 3 4 f t show "\<exists>ws rest. msg = ws @ first @ rest \<and> (\<forall>c\<in>set ws. isSpace c) \<and>
        first \<noteq> [] \<and> (\<forall>c\<in>set first. \<not> isSpace c) \<and>
        (rest = [] \<or> isSpace (hd rest)) \<and> tail = dropWhile isSpace rest" by blast
next
  assume "\<exists>ws rest. msg = ws @ first @ rest \<and> (\<forall>c\<in>set ws. isSpace c) \<and>
        first \<noteq> [] \<and> (\<forall>c\<in>set first. \<not> isSpace c) \<and>
        (rest = [] \<or> isSpace (hd rest)) \<and> tail = dropWhile isSpace rest"
  then obtain ws rest where m: "msg = ws @ first @ rest" and w: "\<forall>c\<in>set ws. isSpace c"
    and ne: "first \<noteq> []" and fs: "\<forall>c\<in>set first. \<not> isSpace c"
    and r: "rest = [] \<or> isSpace (hd rest)" and t: "tail = dropWhile isSpace rest" by blast
  from ne fs have hf: "\<not> isSpace (hd first)" by (cases first) auto
  have b: "dropWhile isSpace msg = first @ rest"
    using w ne hf by (cases first) (auto simp: m)
  have tr: "takeWhile (\<lambda>c. \<not> isSpace c) rest = []" using r by (cases rest) auto
  have dr: "dropWhile (\<lambda>c. \<not> isSpace c) rest = rest" using r by (cases rest) auto
  have tk: "takeWhile (\<lambda>c. \<not> isSpace c) (first @ rest) = first"
    using fs tr by simp
  have dk: "dropWhile (\<lambda>c. \<not> isSpace c) (first @ rest) = rest"
    using fs dr by simp
  show "PopFirstWord msg = Inr (first, tail)"
    by (simp add: PopFirstWord_def Let_def b tk dk ne t)
qed

lemma NewNaturalPrefix_eq:
  "NewNaturalPrefix toLower name msg =
     (case PopFirstWord msg of
        Inl err \<Rightarrow> ('''', False)
      | Inr (first, tail) \<Rightarrow>
          if toLower first = toLower name @ '','' then (tail, True) else ('''', False))"
  by (auto simp add: NewNaturalPrefix_def split: sum.splits prod.splits)

lemma NewSlashPrefix_eq:
  "NewSlashPrefix name msg =
     (case PopFirstWord msg of
        Inl err \<Rightarrow> ('''', False)
      | Inr (first, tail) \<Rightarrow> if first = ''/'' @ name then (tail, True) else ('''', False))"
  by (auto simp add: NewSlashPrefix_def split: sum.splits prod.splits)

lemma NewWordPrefix_eq:
  "NewWordPrefix equalFold word cased msg =
     (case PopFirstWord msg of
        Inl err \<Rightarrow> ('''', False)
      | Inr (first, tail) \<Rightarrow> (tail, if cased then first = word else equalFold first word))"
  by (auto simp add: NewWordPrefix_def split: sum.splits prod.splits)

lemma Do_not_matched:
  "\<not> snd (Prefix c (Body msg)) \<Longrightarrow> Do c msg s = (Some ErrNotMatched, s)"
  by (cases "Prefix c (Body msg)") (simp add: Do_def)

lemma pop_hello_world: "PopFirstWord ''hello world'' = Inr (''hello'', ''world'')"
  by code_simp

text \<open>
  C4. \<open>strings.ToLower\<close> is the parameter \<open>toLower\<close>, of which the three
  properties of \<open>lowersLikeGo\<close> are asked. The natural-prefix matcher for a name
  then matches a body exactly when the first word of the body is a spelling of the name
  that lower-cases to the same string, followed by a comma; on a match it returns the
  tail of the body and \<open>true\<close>. The matcher for "Discord" answers
  \<open>("hello", true)\<close> to "discord, hello" and does not match "Discordx, hello".
\<close>

theorem NewNaturalPrefix_matches:
  assumes "lowersLikeGo toLower"
  shows
  "(snd (NewNaturalPrefix toLower name msg) \<longleftrightarrow>
      (\<exists>first tail w. PopFirstWord msg = Inr (first, tail) \<and>
         first = w @ '','' \<and> toLower w = toLower name)) \<and>
   (PopFirstWord msg = Inr (first, tail) \<and> snd (NewNaturalPrefix toLower name msg) \<longrightarrow>
      NewNaturalPrefix toLower name msg = (tail, True)) \<and>
   NewNaturalPrefix toLower ''Discord'' ''discord, hello'' = (''hello'', True) \<and>
   snd (NewNaturalPrefix toLower ''Discord'' ''Discordx, hello'') = False"
proof -
  note iff = toLower_comma_iff [OF assms]
  have 1: "snd (NewNaturalPrefix toLower name msg) \<longleftrightarrow>
      (\<exists>first tail w. PopFirstWord msg = Inr (first, tail) \<and>
         first = w @ '','' \<and> toLower w = toLower name)"
  proof (cases "PopFirstWord msg")
    case (Inl err)
    then show ?thesis by (simp add: NewNaturalPrefix_eq)
  next
    case (Inr p)
    obtain f t where p: "p = (f, t)" by (cases p)
    with Inr show ?thesis using iff [of f name] by (auto simp: NewNaturalPrefix_eq)
  qed
  have 2: "PopFirstWord msg = Inr (first, tail) \<and> snd (NewNaturalPrefix toLower name msg) \<longrightarrow>
      NewNaturalPrefix toLower name msg = (tail, True)"
    by (auto simp: NewNaturalPrefix_eq split: if_splits)
  have a: "isASCII ''Discord''" "isASCII ''discord,''" "isASCII ''Discordx,''"
    by (simp_all add: isASCII_def)
  have al: "asciiToLower ''Discord'' = ''discord''" "asciiToLower ''discord,'' = ''discord,''"
    "asciiToLower ''Discordx,'' = ''discordx,''"
    by code_simp+
  have l: "toLower ''Discord'' = ''discord''" "toLower ''discord,'' = ''discord,''"
    "toLower ''Discordx,'' = ''discordx,''"
    by (simp_all only: toLower_ascii [OF assms a(1)] toLower_ascii [OF assms a(2)]
        toLower_ascii [OF assms a(3)] al)
  have p: "PopFirstWord ''discord, hello'' = Inr (''discord,'', ''hello'')"
    "PopFirstWord ''Discordx, hello'' = Inr (''Discordx,'', ''hello'')"
    by code_simp+
  have 3: "NewNaturalPrefix toLower ''Discord'' ''discord, hello'' = (''hello'', True)"
    by (simp add: NewNaturalPrefix_eq p l)
  have 4: "snd (NewNaturalPrefix toLower ''Discord'' ''Discordx, hello'') = False"
    by (simp add: NewNaturalPrefix_eq p l)
  from 1 2 3 4 show ?thesis by blast
qed

theorem NewNaturalPrefix_matches_witness:
  "lowersLikeGo asciiToLower \<and>
   PopFirstWord ''DISCORD,  hello there'' = Inr (''DISCORD,'', ''hello there'') \<and>
   snd (NewNaturalPrefix asciiToLower ''Discord'' ''DISCORD,  hello there'') \<and>
   NewNaturalPrefix asciiToLower ''Discord'' ''DISCORD,  hello there''
     = (''hello there'', True)"
proof -
  have p: "PopFirstWord ''DISCORD,  hello there'' = Inr (''DISCORD,'', ''hello there'')"
    by code_simp
  have m: "snd (NewNaturalPrefix asciiToLower ''Discord'' ''DISCORD,  hello there'')"
    by code_simp
  from p m asciiToLower_lowersLikeGo
    NewNaturalPrefix_matches [OF asciiToLower_lowersLikeGo, of "''Discord''"
      "''DISCORD,  hello there''" "''DISCORD,''" "''hello there''"]
  show ?thesis by blast
qed

text \<open>
  C5. The slash-prefix matcher for a name matches a body exactly when the first word
  of the body is a slash followed by the name, letter for letter; on a match it returns
  the tail of the body and \<open>true\<close>. The matcher for "msg" answers \<open>("hi", true)\<close> to
  "/msg hi" and does not match "/Msg hi".
\<close>

theorem NewSlashPrefix_matches:
  "(snd (NewSlashPrefix name msg) \<longleftrightarrow> (\<exists>tail. PopFirstWord msg = Inr (''/'' @ name, tail))) \<and>
   (PopFirstWord msg = Inr (''/'' @ name, tail) \<longrightarrow> NewSlashPrefix name msg = (tail, True)) \<and>
   NewSlashPrefix ''msg'' ''/msg hi'' = (''hi'', True) \<and>
   snd (NewSlashPrefix ''msg'' ''/Msg hi'') = False"
proof -
  have 1: "snd (NewSlashPrefix name msg) \<longleftrightarrow>
      (\<exists>tail. PopFirstWord msg = Inr (''/'' @ name, tail))"
    by (auto simp: NewSlashPrefix_eq split: sum.splits)
  have 2: "PopFirstWord msg = Inr (''/'' @ name, tail) \<longrightarrow>
      NewSlashPrefix name msg = (tail, True)"
    by (simp add: NewSlashPrefix_eq)
  have 3: "NewSlashPrefix ''msg'' ''/msg hi'' = (''hi'', True)"
    by code_simp
  have 4: "snd (NewSlashPrefix ''msg'' ''/Msg hi'') = False"
    by code_simp
  from 1 2 3 4 show ?thesis by blast
qed

theorem NewSlashPrefix_matches_witness:
  "PopFirstWord ''/join  #general now'' = Inr (''/join'', ''#general now'') \<and>
   NewSlashPrefix ''join'' ''/join  #general now'' = (''#general now'', True)"
proof -
  have p: "PopFirstWord ''/join  #general now'' = Inr (''/'' @ ''join'', ''#general now'')"
    by code_simp
  from p NewSlashPrefix_matches [of "''join''" "''/join  #general now''" "''#general now''"]
  show ?thesis by simp
qed

text \<open>
  C2, as amended. A body whose first word is not the token a built-in matcher was made
  for, compared the way the matcher compares, gets the answer \<open>false\<close>. With it
  the natural-prefix and the slash-prefix matchers return the empty string, and the
  word-prefix matcher returns the tail after the first word, or the empty string when
  the body has no word. The message body stays as it was because \<open>Do\<close> drops
  what a failed match returns: it answers \<open>ErrNotMatched\<close> and runs nothing. The
  library functions \<open>toLower\<close> and \<open>equalFold\<close> are any functions at all.
\<close>

theorem unmatched_result:
  "(\<not> (\<exists>first tail. PopFirstWord msg = Inr (first, tail) \<and>
          toLower first = toLower name @ '','') \<longrightarrow>
      NewNaturalPrefix toLower name msg = ('''', False)) \<and>
   (\<not> (\<exists>tail. PopFirstWord msg = Inr (''/'' @ name, tail)) \<longrightarrow>
      NewSlashPrefix name msg = ('''', False)) \<and>
   (\<not> (\<exists>first tail. PopFirstWord msg = Inr (first, tail) \<and>
          (if cased then first = word else equalFold first word)) \<longrightarrow>
      NewWordPrefix equalFold word cased msg =
        (case PopFirstWord msg of Inl err \<Rightarrow> ('''', False) | Inr (first, tail) \<Rightarrow> (tail, False))) \<and>
   (\<not> snd (Prefix c (Body m)) \<longrightarrow> Do c m s = (Some ErrNotMatched, s))"
proof -
  have 1: "\<not> (\<exists>first tail. PopFirstWord msg = Inr (first, tail) \<and>
          toLower first = toLower name @ '','') \<longrightarrow>
      NewNaturalPrefix toLower name msg = ('''', False)"
    by (auto simp: NewNaturalPrefix_eq split: sum.splits)
  have 2: "\<not> (\<exists>tail. PopFirstWord msg = Inr (''/'' @ name, tail)) \<longrightarrow>
      NewSlashPrefix name msg = ('''', False)"
    by (auto simp: NewSlashPrefix_eq split: sum.splits)
  have 3: "\<not> (\<exists>first tail. PopFirstWord msg = Inr (first, tail) \<and>
          (if cased then first = word else equalFold first word)) \<longrightarrow>
      NewWordPrefix equalFold word cased msg =
        (case PopFirstWord msg of Inl err \<Rightarrow> ('''', False) | Inr (first, tail) \<Rightarrow> (tail, False))"
    by (auto simp: NewWordPrefix_eq split: sum.splits)
  have 4: "\<not> snd (Prefix c (Body m)) \<longrightarrow> Do c m s = (Some ErrNotMatched, s)"
    by (simp add: Do_not_matched)
  from 1 2 3 4 show ?thesis by blast
qed

theorem unmatched_result_witness:
  "NewNaturalPrefix asciiToLower ''msg'' ''hello world'' = ('''', False) \<and>
   NewSlashPrefix ''msg'' ''hello world'' = ('''', False) \<and>
   NewWordPrefix asciiEqualFold ''msg'' False ''hello world'' = (''world'', False) \<and>
   Do (slashCmd ''msg'' None) \<lparr>Embedded = sms ''hello world'', Body = ''hello world''\<rparr> []
     = (Some ErrNotMatched, [])"
proof -
  have "asciiToLower ''hello'' \<noteq> asciiToLower ''msg'' @ '',''" by code_simp
  then have a: "\<not> (\<exists>first tail. PopFirstWord ''hello world'' = Inr (first, tail) \<and>
          asciiToLower first = asciiToLower ''msg'' @ '','')"
    by (simp add: pop_hello_world)
  have b: "\<not> (\<exists>tail. PopFirstWord ''hello world'' = Inr (''/'' @ ''msg'', tail))"
    by (simp add: pop_hello_world)
  have "\<not> asciiEqualFold ''hello'' ''msg''" by code_simp
  then have c: "\<not> (\<exists>first tail. PopFirstWord ''hello world'' = Inr (first, tail) \<and>
          (if False then first = ''msg'' else asciiEqualFold first ''msg''))"
    by (simp add: pop_hello_world)
  have d: "\<not> snd (Prefix (slashCmd ''msg'' None)
             (Body \<lparr>Embedded = sms ''hello world'', Body = ''hello world''\<rparr>))"
    by code_simp
  from a b c d
    unmatched_result [of "''hello world''" asciiToLower "''msg''" False "''msg''"
      asciiEqualFold "slashCmd ''msg'' None"
      "\<lparr>Embedded = sms ''hello world'', Body = ''hello world''\<rparr>" "[]"]
  show ?thesis by (simp add: pop_hello_world)
qed

text \<open>
  The claim as it was stated fails on "hello world" for the matchers made for "msg":
  the first word is "hello", none of them matches, and none returns the body. All the
  strings are ASCII, where \<open>strings.ToLower\<close> is \<open>asciiToLower\<close>; the word
  matcher is the cased one, which calls no library function.
\<close>

theorem unmatched_remainder_counterexample:
  "PopFirstWord ''hello world'' = Inr (''hello'', ''world'') \<and>
   snd (NewNaturalPrefix asciiToLower ''msg'' ''hello world'') = False \<and>
   fst (NewNaturalPrefix asciiToLower ''msg'' ''hello world'') \<noteq> ''hello world'' \<and>
   snd (NewSlashPrefix ''msg'' ''hello world'') = False \<and>
   fst (NewSlashPrefix ''msg'' ''hello world'') \<noteq> ''hello world'' \<and>
   snd (NewWordPrefix asciiEqualFold ''msg'' True ''hello world'') = False \<and>
   fst (NewWordPrefix asciiEqualFold ''msg'' True ''hello world'') \<noteq> ''hello world''"
proof -
  have "asciiToLower ''hello'' \<noteq> asciiToLower ''msg'' @ '',''" by code_simp
  then show ?thesis
    by (simp add: NewNaturalPrefix_eq NewSlashPrefix_eq NewWordPrefix_eq pop_hello_world)
qed

section \<open>Properties of the commands\<close>

lemma Subcommands_exhausted:
  "allNotMatched cmds msg s \<Longrightarrow>
   Subcommands cmds msg s = (Some ErrNotMatched, stateAfter cmds msg s)"
  by (induction cmds arbitrary: s) (auto split: prod.splits)

lemma Subcommands_first:
  "allNotMatched pre msg s \<Longrightarrow>
   \<not> errors_Is (fst (Do cmd msg (stateAfter pre msg s))) ErrNotMatched \<Longrightarrow>
   Subcommands (pre @ cmd # post) msg s = Do cmd msg (stateAfter pre msg s)"
  by (induction pre arbitrary: s) (auto split: prod.splits)

lemma Subcommands_split:
  "\<not> allNotMatched cmds msg s \<Longrightarrow>
   \<exists>pre cmd post. cmds = pre @ cmd # post \<and> allNotMatched pre msg s \<and>
     \<not> errors_Is (fst (Do cmd msg (stateAfter pre msg s))) ErrNotMatched"
proof (induction cmds arbitrary: s)
  case Nil
  then show ?case by simp
next
  case (Cons c cs)
  show ?case
  proof (cases "errors_Is (fst (Do c msg s)) ErrNotMatched")
    case False
    then have "c # cs = [] @ c # cs \<and> allNotMatched [] msg s \<and>
       \<not> errors_Is (fst (Do c msg (stateAfter [] msg s))) ErrNotMatched" by simp
    then show ?thesis by blast
  next
    case True
    with Cons.prems have "\<not> allNotMatched cs msg (snd (Do c msg s))" by simp
    from Cons.IH[OF this] obtain pre cmd post where
      h: "cs = pre @ cmd # post" "allNotMatched pre msg (snd (Do c msg s))"
         "\<not> errors_Is (fst (Do cmd msg (stateAfter pre msg (snd (Do c msg s))))) ErrNotMatched"
      by blast
    with True have "c # cs = (c # pre) @ cmd # post \<and> allNotMatched (c # pre) msg s \<and>
       \<not> errors_Is (fst (Do cmd msg (stateAfter (c # pre) msg s))) ErrNotMatched" by simp
    then show ?thesis by blast
  qed
qed

text \<open>
  C1. The aggregate tries its children in order. When the children before some
  child all return \<open>ErrNotMatched\<close> and that child returns anything else, success
  or another error, the aggregate's result and the state it leaves are those of that
  child, whatever children come after it: none of them runs. When every child returns
  \<open>ErrNotMatched\<close> the aggregate returns \<open>ErrNotMatched\<close>, each child having run
  once. Every list of children is in one of the two cases. An error returns
  \<open>ErrNotMatched\<close> when \<open>errors.Is\<close> finds the sentinel in its chain.
\<close>

theorem Subcommands_aggregate:
  "(allNotMatched pre msg s \<and>
    \<not> errors_Is (fst (Do cmd msg (stateAfter pre msg s))) ErrNotMatched \<longrightarrow>
      Subcommands (pre @ cmd # post) msg s = Do cmd msg (stateAfter pre msg s)) \<and>
   (allNotMatched cmds msg s \<longrightarrow>
      Subcommands cmds msg s = (Some ErrNotMatched, stateAfter cmds msg s)) \<and>
   (allNotMatched cmds msg s \<or>
      (\<exists>pre cmd post. cmds = pre @ cmd # post \<and> allNotMatched pre msg s \<and>
         \<not> errors_Is (fst (Do cmd msg (stateAfter pre msg s))) ErrNotMatched))"
  using Subcommands_first [of pre msg s cmd post] Subcommands_exhausted [of cmds msg s]
    Subcommands_split [of cmds msg s]
  by blast

theorem Subcommands_aggregate_witness:
  "allNotMatched [slashCmd ''a'' None] \<lparr>Embedded = sms ''/b hi'', Body = ''/b hi''\<rparr> [] \<and>
   Subcommands
     [slashCmd ''a'' None, slashCmd ''b'' (Some (Failure ''boom'')), slashCmd ''b'' None]
     \<lparr>Embedded = sms ''/b hi'', Body = ''/b hi''\<rparr> []
     = (Some (Failure ''boom''), [''b:hi'']) \<and>
   allNotMatched [slashCmd ''a'' None, slashCmd ''c'' None]
     \<lparr>Embedded = sms ''/b hi'', Body = ''/b hi''\<rparr> [] \<and>
   Subcommands [slashCmd ''a'' None, slashCmd ''c'' None]
     \<lparr>Embedded = sms ''/b hi'', Body = ''/b hi''\<rparr> []
     = (Some ErrNotMatched, [])"
proof -
  let ?m = "\<lparr>Embedded = sms ''/b hi'', Body = ''/b hi''\<rparr>"
  have a: "allNotMatched [slashCmd ''a'' None] ?m []" by code_simp
  have sa: "stateAfter [slashCmd ''a'' None] ?m [] = []" by code_simp
  have d: "Do (slashCmd ''b'' (Some (Failure ''boom''))) ?m [] = (Some (Failure ''boom''), [''b:hi''])"
    by code_simp
  have b: "\<not> errors_Is (fst (Do (slashCmd ''b'' (Some (Failure ''boom''))) ?m
             (stateAfter [slashCmd ''a'' None] ?m []))) ErrNotMatched"
    by code_simp
  have c: "allNotMatched [slashCmd ''a'' None, slashCmd ''c'' None] ?m []" by code_simp
  have sc: "stateAfter [slashCmd ''a'' None, slashCmd ''c'' None] ?m [] = []" by code_simp
  note agg = Subcommands_aggregate [of "[slashCmd ''a'' None]" ?m "[]"
      "slashCmd ''b'' (Some (Failure ''boom''))" "[slashCmd ''b'' None]"
      "[slashCmd ''a'' None, slashCmd ''c'' None]"]
  from agg a b have "Subcommands
      ([slashCmd ''a'' None] @ slashCmd ''b'' (Some (Failure ''boom'')) # [slashCmd ''b'' None])
      ?m [] = Do (slashCmd ''b'' (Some (Failure ''boom''))) ?m
                (stateAfter [slashCmd ''a'' None] ?m [])"
    by blast
  then have 1: "Subcommands
      [slashCmd ''a'' None, slashCmd ''b'' (Some (Failure ''boom'')), slashCmd ''b'' None]
      ?m [] = (Some (Failure ''boom''), [''b:hi''])"
    by (simp only: sa d append_Cons append_Nil)
  from agg c have "Subcommands [slashCmd ''a'' None, slashCmd ''c'' None] ?m []
      = (Some ErrNotMatched, stateAfter [slashCmd ''a'' None, slashCmd ''c'' None] ?m [])"
    by blast
  then have 2: "Subcommands [slashCmd ''a'' None, slashCmd ''c'' None] ?m []
      = (Some ErrNotMatched, [])"
    by (simp only: sc)
  from a 1 c 2 show ?thesis by blast
qed

lemma ErrorMessage_Some:
  "ErrorMessage (Some e) =
     (if chainIs e ErrNotMatched then ''Sorry! I'm not sure what you mean.''
      else ''Sorry, an error occured: '' @ Error e)"
  by (simp add: ErrorMessage_def errors_Is_def)

text \<open>
  What \<open>DoAndReply\<close> does, case by case: nothing when \<open>Do\<close> succeeds; one reply
  with the text of the error when \<open>Do\<close> fails; and after a reply that failed, one
  line in the log.
\<close>

lemma DoAndReply_success:
  "Do c \<lparr>Embedded = msg, Body = msg_Body msg\<rparr> s = (None, s1) \<Longrightarrow>
   DoAndReply c cli msg s = ([], s1)"
  by (simp add: DoAndReply_def)

lemma DoAndReply_replied:
  "Do c \<lparr>Embedded = msg, Body = msg_Body msg\<rparr> s = (Some err, s1) \<Longrightarrow>
   cli msg (ErrorMessage (Some err)) s1 = (None, s2) \<Longrightarrow>
   DoAndReply c cli msg s = ([ReplySMS msg (ErrorMessage (Some err))], s2)"
  by (simp add: DoAndReply_def)

lemma DoAndReply_reply_failed:
  "Do c \<lparr>Embedded = msg, Body = msg_Body msg\<rparr> s = (Some err, s1) \<Longrightarrow>
   cli msg (ErrorMessage (Some err)) s1 = (Some rerr, s2) \<Longrightarrow>
   DoAndReply c cli msg s =
     ([ReplySMS msg (ErrorMessage (Some err)),
       LogError ''cannot reply with error message'' rerr rerr (msg_From msg) (msg_To msg)], s2)"
  by (simp add: DoAndReply_def)

text \<open>
  C3. A command whose action fails with the error "boom" makes \<open>DoAndReply\<close> send
  one reply. Its text is "Sorry, an error occured: boom", with the word spelt as the
  source spells it, which is not the text "Sorry, an error occurred: boom" of the
  claim. The same holds when the reply itself fails: the failure goes to the log and
  nowhere else.
\<close>

theorem DoAndReply_error_text:
  "DoAndReply (slashCmd ''fail'' (Some (Failure ''boom''))) journalReply (sms ''/fail now'') []
     = ([ReplySMS (sms ''/fail now'') ''Sorry, an error occured: boom''],
        [''fail:now'', ''reply:Sorry, an error occured: boom'']) \<and>
   ''Sorry, an error occured: boom'' \<noteq> ''Sorry, an error occurred: boom'' \<and>
   DoAndReply (slashCmd ''fail'' (Some (Failure ''boom''))) failingReply (sms ''/fail now'') []
     = ([ReplySMS (sms ''/fail now'') ''Sorry, an error occured: boom'',
         LogError ''cannot reply with error message'' (Failure ''no route'') (Failure ''no route'')
           ''+15550001'' ''+15550002''],
        [''fail:now''])"
proof -
  have d: "Do (slashCmd ''fail'' (Some (Failure ''boom'')))
             \<lparr>Embedded = sms ''/fail now'', Body = msg_Body (sms ''/fail now'')\<rparr> []
           = (Some (Failure ''boom''), [''fail:now''])"
    by code_simp
  have e: "ErrorMessage (Some (Failure ''boom'')) = ''Sorry, an error occured: boom''"
    by (simp add: ErrorMessage_Some)
  have 1: "DoAndReply (slashCmd ''fail'' (Some (Failure ''boom''))) journalReply
             (sms ''/fail now'') []
     = ([ReplySMS (sms ''/fail now'') ''Sorry, an error occured: boom''],
        [''fail:now'', ''reply:Sorry, an error occured: boom''])"
    using DoAndReply_replied [OF d, of journalReply
        "[''fail:now'', ''reply:Sorry, an error occured: boom'']"]
    by (simp add: e journalReply_def)
  have 2: "''Sorry, an error occured: boom'' \<noteq> ''Sorry, an error occurred: boom''"
    by simp
  have 3: "DoAndReply (slashCmd ''fail'' (Some (Failure ''boom''))) failingReply
             (sms ''/fail now'') []
     = ([ReplySMS (sms ''/fail now'') ''Sorry, an error occured: boom'',
         LogError ''cannot reply with error message'' (Failure ''no route'') (Failure ''no route'')
           ''+15550001'' ''+15550002''],
        [''fail:now''])"
    using DoAndReply_reply_failed [OF d, of failingReply "Failure ''no route''" "[''fail:now'']"]
    by (simp add: e failingReply_def sms_def)
  from 1 2 3 show ?thesis by blast
qed

section \<open>Properties of the message filters\<close>

lemma filterLoop_all: "filterLoop fs msg \<longleftrightarrow> (\<forall>f\<in>set fs. satisfies msg f)"
proof (induction fs)
  case Nil
  then show ?case by simp
next
  case (Cons f fs)
  show ?case
  proof (cases f)
    case None
    with Cons show ?thesis by simp
  next
    case (Some v)
    with Cons show ?thesis by (cases v) auto
  qed
qed

text \<open>
  C6. \<open>FilterMessage\<close> answers \<open>true\<close> exactly when the message satisfies every
  filter of the list: a match-from filter asks for the message's sender to be the
  given one, a match-to filter for its recipient, each letter for letter. So a list
  holding a match-from filter for "A" rejects every message from somebody else, and the
  empty list, like no list at all, accepts every message.
\<close>

theorem FilterMessage_conjunction:
  "(FilterMessage filters msg \<longleftrightarrow> (\<forall>f\<in>set (GetFilters filters). satisfies msg f)) \<and>
   (Some (MessageFilter_MatchFrom A) \<in> set (GetFilters filters) \<and> GetFrom msg \<noteq> A \<longrightarrow>
      \<not> FilterMessage filters msg) \<and>
   FilterMessage (Some \<lparr>Filters = []\<rparr>) msg \<and>
   FilterMessage None msg"
proof -
  have 1: "FilterMessage filters msg \<longleftrightarrow> (\<forall>f\<in>set (GetFilters filters). satisfies msg f)"
    by (simp add: FilterMessage_def filterLoop_all)
  have 2: "Some (MessageFilter_MatchFrom A) \<in> set (GetFilters filters) \<and> GetFrom msg \<noteq> A \<longrightarrow>
      \<not> FilterMessage filters msg"
  proof
    assume h: "Some (MessageFilter_MatchFrom A) \<in> set (GetFilters filters) \<and> GetFrom msg \<noteq> A"
    then have "\<not> satisfies msg (Some (MessageFilter_MatchFrom A))" by simp
    with h show "\<not> FilterMessage filters msg" unfolding 1 by blast
  qed
  have 3: "FilterMessage (Some \<lparr>Filters = []\<rparr>) msg"
    by (simp add: FilterMessage_def GetFilters_def)
  have 4: "FilterMessage None msg"
    by (simp add: FilterMessage_def GetFilters_def)
  from 1 2 3 4 show ?thesis by blast
qed

theorem FilterMessage_conjunction_witness:
  "Some (MessageFilter_MatchFrom ''A'')
     \<in> set (GetFilters (Some \<lparr>Filters = [Some (MessageFilter_MatchTo ''C''),
                                          Some (MessageFilter_MatchFrom ''A'')]\<rparr>)) \<and>
   GetFrom (Some \<lparr>pb_From = ''B'', pb_To = ''C'', pb_Body = ''hi''\<rparr>) \<noteq> ''A'' \<and>
   \<not> FilterMessage (Some \<lparr>Filters = [Some (MessageFilter_MatchTo ''C''),
                                     Some (MessageFilter_MatchFrom ''A'')]\<rparr>)
       (Some \<lparr>pb_From = ''B'', pb_To = ''C'', pb_Body = ''hi''\<rparr>) \<and>
   FilterMessage (Some \<lparr>Filters = [Some (MessageFilter_MatchTo ''C''),
                                   Some (MessageFilter_MatchFrom ''A'')]\<rparr>)
       (Some \<lparr>pb_From = ''A'', pb_To = ''C'', pb_Body = ''hi''\<rparr>)"
proof -
  let ?fs = "Some \<lparr>Filters = [Some (MessageFilter_MatchTo ''C''),
                              Some (MessageFilter_MatchFrom ''A'')]\<rparr>"
  let ?b = "Some \<lparr>pb_From = ''B'', pb_To = ''C'', pb_Body = ''hi''\<rparr>"
  let ?a = "Some \<lparr>pb_From = ''A'', pb_To = ''C'', pb_Body = ''hi''\<rparr>"
  have m: "Some (MessageFilter_MatchFrom ''A'') \<in> set (GetFilters ?fs)"
    by (simp add: GetFilters_def)
  have n: "GetFrom ?b \<noteq> ''A''" by (simp add: GetFrom_def)
  have s: "\<forall>f\<in>set (GetFilters ?fs). satisfies ?a f"
    by (simp add: GetFilters_def GetFrom_def GetTo_def)
  from m n FilterMessage_conjunction [of ?fs ?b "''A''"]
  have 1: "\<not> FilterMessage ?fs ?b" by blast
  from s FilterMessage_conjunction [of ?fs ?a "''A''"]
  have 2: "FilterMessage ?fs ?a" by blast
  from m n 1 2 show ?thesis by blast
qed

section \<open>Properties of the loader\<close>

text \<open>
  C7. A loader whose \<open>enabled\<close> map does not hold \<open>true\<close> for "twid" (the key is
  missing, or its value is \<open>false\<close>) returns an error from \<open>Start\<close> and hands no
  goroutine to the error group, whatever else the loader holds and whichever other modules
  are enabled.
\<close>

theorem Start_refuses:
  "enabled l ''twid'' \<noteq> Some True \<Longrightarrow>
   Start l keys = ([], Some (Failure ''twid is not enabled''))"
  by (cases "enabled l ''twid''") (auto simp: Start_def isEnabled_def)

theorem Start_refuses_witness:
  "enabled ((NewLoader [echoModule])
      \<lparr>enabled := [''echo'' \<mapsto> True, ''twipi'' \<mapsto> True],
       http := Some \<lparr>Addr = '':8080''\<rparr>, twipi := Some \<lparr>hasMessage = True\<rparr>\<rparr>) ''twid''
     \<noteq> Some True \<and>
   Start ((NewLoader [echoModule])
      \<lparr>enabled := [''echo'' \<mapsto> True, ''twipi'' \<mapsto> True],
       http := Some \<lparr>Addr = '':8080''\<rparr>, twipi := Some \<lparr>hasMessage = True\<rparr>\<rparr>) [''echo'']
     = ([], Some (Failure ''twid is not enabled''))"
proof -
  let ?l = "(NewLoader [echoModule])
      \<lparr>enabled := [''echo'' \<mapsto> True, ''twipi'' \<mapsto> True],
       http := Some \<lparr>Addr = '':8080''\<rparr>, twipi := Some \<lparr>hasMessage = True\<rparr>\<rparr>"
  have h: "enabled ?l ''twid'' \<noteq> Some True" by simp
  from h Start_refuses [OF h, of "[''echo'']"] show ?thesis by blast
qed











lemma checkIllegal_None_iff: "checkIllegal names m = None \<longleftrightarrow> Name m \<notin> set names"
  by (induction names) auto

lemma Register_Panic_iff: "(\<exists>p. Register m modules = Panic p) \<longleftrightarrow> Name m \<in> set illegalNames"
proof (cases "checkIllegal illegalNames m")
  case None
  then show ?thesis using checkIllegal_None_iff [of illegalNames m] by (simp add: Register_def)
next
  case (Some p)
  then show ?thesis using checkIllegal_None_iff [of illegalNames m] by (simp add: Register_def)
qed

lemma Register_Return:
  "Name m \<notin> set illegalNames \<Longrightarrow> Register m modules = Return (modules @ [m])"
  using checkIllegal_None_iff [of illegalNames m] by (simp add: Register_def)

lemma RegisterAll_Return:
  "RegisterAll ms modules = Return reg \<Longrightarrow>
   reg = modules @ ms \<and> (\<forall>m\<in>set ms. Name m \<notin> set illegalNames)"
proof (induction ms arbitrary: modules)
  case Nil
  then show ?case by simp
next
  case (Cons m ms)
  show ?case
  proof (cases "Name m \<in> set illegalNames")
    case True
    then obtain p where "Register m modules = Panic p" using Register_Panic_iff by blast
    with Cons.prems show ?thesis by simp
  next
    case False
    then have r: "Register m modules = Return (modules @ [m])" by (rule Register_Return)
    with Cons.prems have "RegisterAll ms (modules @ [m]) = Return reg" by simp
    from Cons.IH [OF this] False show ?thesis by simp
  qed
qed

lemma newHandlers_map_of:
  "newHandlers ms hs = hs ++ map_of (rev (map (\<lambda>m. (Name m, New m ())) ms))"
proof (induction ms arbitrary: hs)
  case Nil
  then show ?case by simp
next
  case (Cons m ms)
  have "hs(Name m \<mapsto> New m ()) = hs ++ [Name m \<mapsto> New m ()]" by simp
  then show ?case by (simp add: Cons.IH del: map_add_upd)
qed

lemma dom_newHandlers: "dom (newHandlers ms hs) = dom hs \<union> Name ` set ms"
  by (induction ms arbitrary: hs) auto

text \<open>
  C9, as amended. After a sequence of registrations that ends without a panic the
  registry holds the modules registered, in their order, and none of them bears a
  reserved name. \<open>Register\<close> panics exactly on the reserved names "twid" and
  "twipi"; every other name it accepts, also one the registry holds already, so that
  the names registered need not differ from each other. The handler map that
  \<open>NewLoader\<close> builds has one handler for each name registered, the one of the
  module registered last under that name.
\<close>

theorem Register_names:
  "(RegisterAll ms [] = Return reg \<longrightarrow>
      reg = ms \<and> (\<forall>m\<in>set reg. Name m \<notin> {''twid'', ''twipi''})) \<and>
   ((\<exists>p. Register m modules = Panic p) \<longleftrightarrow> Name m \<in> {''twid'', ''twipi''}) \<and>
   (Name m \<notin> {''twid'', ''twipi''} \<longrightarrow> Register m modules = Return (modules @ [m])) \<and>
   dom (handlers (NewLoader modules)) = Name ` set modules \<and>
   handlers (NewLoader modules) = map_of (rev (map (\<lambda>m. (Name m, New m ())) modules))"
proof -
  have i: "set illegalNames = {''twid'', ''twipi''}" by (simp add: illegalNames_def)
  have 1: "RegisterAll ms [] = Return reg \<longrightarrow>
      reg = ms \<and> (\<forall>m\<in>set reg. Name m \<notin> {''twid'', ''twipi''})"
    using RegisterAll_Return [of ms "[]" reg] unfolding i by auto
  have 2: "(\<exists>p. Register m modules = Panic p) \<longleftrightarrow> Name m \<in> {''twid'', ''twipi''}"
    using Register_Panic_iff [of m modules] unfolding i .
  have 3: "Name m \<notin> {''twid'', ''twipi''} \<longrightarrow> Register m modules = Return (modules @ [m])"
    using Register_Return [of m modules] unfolding i by blast
  have 4: "dom (handlers (NewLoader modules)) = Name ` set modules"
    by (simp add: NewLoader_def dom_newHandlers)
  have 5: "handlers (NewLoader modules) = map_of (rev (map (\<lambda>m. (Name m, New m ())) modules))"
    by (simp add: NewLoader_def newHandlers_map_of)
  from 1 2 3 4 5 show ?thesis by blast
qed

theorem Register_names_witness:
  "RegisterAll [echoModule, echoModule2] [] = Return [echoModule, echoModule2] \<and>
   Name echoModule \<notin> {''twid'', ''twipi''} \<and>
   Name echoModule2 \<notin> {''twid'', ''twipi''} \<and>
   Register echoModule2 [echoModule] = Return [echoModule, echoModule2] \<and>
   dom (handlers (NewLoader [echoModule, echoModule2])) = {''echo''} \<and>
   handlers (NewLoader [echoModule, echoModule2]) ''echo''
     = Some (plainHandler\<lparr>isCommandHandler := True\<rparr>)"
proof -
  have r: "RegisterAll [echoModule, echoModule2] [] = Return [echoModule, echoModule2]"
    by (simp add: Register_def illegalNames_def echoModule_def echoModule2_def)
  have n: "Name echoModule2 \<notin> {''twid'', ''twipi''}" by (simp add: echoModule2_def)
  note t = Register_names [of "[echoModule, echoModule2]" "[echoModule, echoModule2]"
      echoModule2 "[echoModule]"]
  note u = Register_names [of "[]" "[]" echoModule2 "[echoModule, echoModule2]"]
  from t r have 1: "Name echoModule \<notin> {''twid'', ''twipi''}" by simp
  from t n have 2: "Register echoModule2 [echoModule] = Return ([echoModule] @ [echoModule2])"
    by blast
  from u have 3: "dom (handlers (NewLoader [echoModule, echoModule2])) = {''echo''}"
    by (simp add: echoModule_def echoModule2_def)
  from u have 4: "handlers (NewLoader [echoModule, echoModule2]) ''echo''
     = Some (plainHandler\<lparr>isCommandHandler := True\<rparr>)"
    by (simp add: echoModule_def echoModule2_def)
  from r 1 n 2 3 4 show ?thesis by simp
qed

text \<open>
  The claim as it was stated fails: two modules named "echo" register without a
  panic, and the names in the registry are not distinct.
\<close>

theorem Register_unique_counterexample:
  "RegisterAll [echoModule, echoModule2] [] = Return [echoModule, echoModule2] \<and>
   Name echoModule = Name echoModule2 \<and>
   echoModule \<noteq> echoModule2 \<and>
   \<not> distinct (map Name [echoModule, echoModule2])"
proof -
  have "New echoModule () \<noteq> New echoModule2 ()"
    by (simp add: echoModule_def echoModule2_def plainHandler_def)
  then have "echoModule \<noteq> echoModule2" by auto
  then show ?thesis
    by (simp add: Register_def illegalNames_def echoModule_def echoModule2_def)
qed

lemma bindAll_fields:
  "mux (bindAll keys srv l) = mux l \<and> twipi (bindAll keys srv l) = twipi l \<and>
   ListenAddr (bindAll keys srv l) = ListenAddr l \<and> enabled (bindAll keys srv l) = enabled l"
proof (induction keys arbitrary: l)
  case Nil
  then show ?case by simp
next
  case (Cons name keys)
  show ?case
  proof (cases "handlers l name")
    case None
    then show ?thesis using Cons.IH [of l] by simp
  next
    case (Some h)
    show ?thesis
    proof (cases "isEnabled l name \<and> isTwipiHandler h")
      case True
      with Some show ?thesis
        using Cons.IH [of "l\<lparr>handlers := (handlers l)(name \<mapsto> h\<lparr>boundTwipi := Some srv\<rparr>)\<rparr>"]
        by simp
    next
      case False
      with Some show ?thesis using Cons.IH [of l] by auto
    qed
  qed
qed

lemma bindHTTP_fields:
  "twipi (bindHTTP keys l) = twipi l \<and>
   mux (bindHTTP keys l) = (if ListenAddr l \<noteq> '''' then Some (handleAll keys l []) else mux l)"
  by (simp add: bindHTTP_def)

text \<open>
  When \<open>LoadConfig\<close> panics: with a document that parses, the transport enabled and
  built, no listen address and no multiplexer from before, the transport is mounted
  on a nil multiplexer.
\<close>

lemma LoadConfig_nil_mux:
  assumes "mux l = None" and "doc_ListenAddr doc = ''''"
    and "isEnabled (l\<lparr>ListenAddr := doc_ListenAddr doc,
                      enabled := setEnabled (enabledBlocks doc) (enabled l)\<rparr>) ''twipi''"
  shows "LoadConfig l keys (Inr doc) (Inr srv)
           = Panic ''invalid memory address or nil pointer dereference''"
proof -
  let ?l1 = "l\<lparr>ListenAddr := doc_ListenAddr doc,
                enabled := setEnabled (enabledBlocks doc) (enabled l)\<rparr>"
  let ?l2 = "bindAll keys srv (?l1\<lparr>twipi := Some srv\<rparr>)"
  have a: "ListenAddr ?l2 = ''''" "mux ?l2 = None" "twipi ?l2 = Some srv"
    using assms bindAll_fields [of keys srv "?l1\<lparr>twipi := Some srv\<rparr>"] by simp_all
  then have "mux (bindHTTP keys ?l2) = None" "twipi (bindHTTP keys ?l2) = Some srv"
    by (simp_all add: bindHTTP_fields)
  then have "bindTwipiRouter (bindHTTP keys ?l2)
      = Panic ''invalid memory address or nil pointer dereference''"
    by (simp add: bindTwipiRouter_def)
  with assms(3) show ?thesis by (simp add: LoadConfig_def Let_def)
qed

text \<open>
  C10. A fresh loader with the module "echo" is given a document that enables the
  loader and the transport and has no listen address; the transport is built without
  an error. \<open>LoadConfig\<close> does not come back: no multiplexer was made, the
  transport is there, and mounting it on the nil multiplexer panics.
\<close>

theorem LoadConfig_panics:
  "LoadConfig (NewLoader [echoModule]) [''echo''] (Inr noListenDoc)
       (Inr \<lparr>hasMessage = True\<rparr>)
     = Panic ''invalid memory address or nil pointer dereference'' \<and>
   mux (NewLoader [echoModule]) = None \<and>
   doc_ListenAddr noListenDoc = ''''"
proof -
  have m: "mux (NewLoader [echoModule]) = None" by (simp add: NewLoader_def)
  have a: "doc_ListenAddr noListenDoc = ''''" by (simp add: noListenDoc_def)
  have e: "isEnabled ((NewLoader [echoModule])\<lparr>ListenAddr := doc_ListenAddr noListenDoc,
             enabled := setEnabled (enabledBlocks noListenDoc)
               (enabled (NewLoader [echoModule]))\<rparr>) ''twipi''"
    by (simp add: isEnabled_def noListenDoc_def NewLoader_def)
  from LoadConfig_nil_mux [OF m a e, of "[''echo'']" "\<lparr>hasMessage = True\<rparr>"] m a
  show ?thesis by blast
qed



end
